theory Spec2Isabelle
  imports Main "HOL-Library.Word"
begin

unbundle bit_operations_syntax

section \<open>The NZAAT digest of nzaat.go\<close>

text \<open>
  The Go package keeps one unsigned 32-bit accumulator, \<^verbatim>\<open>type digest uint32\<close>. Every
  method has a pointer receiver, so each method is modelled as a function of the
  accumulator's value before the call that returns the value after it (and the method's
  results, when it has any). Go's \<^verbatim>\<open>uint32\<close> arithmetic wraps around; \<open>32 word\<close> does
  the same. \<^verbatim>\<open><<\<close> is \<open>push_bit\<close>, \<^verbatim>\<open>>>\<close> on an unsigned operand is \<open>drop_bit\<close>,
  \<^verbatim>\<open>^\<close> is \<open>XOR\<close>.
\<close>

type_synonym byte = "8 word"
type_synonym uint32 = "32 word"
type_synonym digest = "32 word"

text \<open>Go's \<^verbatim>\<open>error\<close> interface; \<^verbatim>\<open>nil\<close> is \<open>None\<close>.\<close>

datatype error = Error string

subsection \<open>The primitives documented in the header comment of nzaat.go\<close>

text \<open>
  \<^verbatim>\<open>ADD(x,y) -> { x += y; }\<close>,
  \<^verbatim>\<open>NAV(s,b) -> { ADD(s,b+c); }\<close> with \<^verbatim>\<open>c\<close> chosen as 1,
  \<^verbatim>\<open>MIX(s) -> { s += s << 10; s ^= s >> 6; }\<close>,
  \<^verbatim>\<open>NUP(s,b) -> { NAV(s,b); MIX(s); }\<close>,
  \<^verbatim>\<open>FIN(s) -> { s += s << 3; s ^= s >> 11; s += s << 15; result <- s; }\<close>,
  \<^verbatim>\<open>NAF(s) -> { MIX(s); FIN(s); }\<close> and
  \<^verbatim>\<open>NZF(s) -> { MIX(s); if(!s){++s;} FIN(s); }\<close>.
\<close>

definition ADD :: "uint32 \<Rightarrow> uint32 \<Rightarrow> uint32" where
  "ADD x y = x + y"

definition NAV :: "uint32 \<Rightarrow> byte \<Rightarrow> uint32" where
  "NAV s b = ADD s (ucast b + 1)"

definition MIX :: "uint32 \<Rightarrow> uint32" where
  "MIX s = (let s1 = s + push_bit 10 s;
                s2 = s1 XOR drop_bit 6 s1
            in s2)"

definition NUP :: "uint32 \<Rightarrow> byte \<Rightarrow> uint32" where
  "NUP s b = MIX (NAV s b)"

definition FIN :: "uint32 \<Rightarrow> uint32" where
  "FIN s = (let s1 = s + push_bit 3 s;
                s2 = s1 XOR drop_bit 11 s1;
                s3 = s2 + push_bit 15 s2
            in s3)"

definition NAF :: "uint32 \<Rightarrow> uint32" where
  "NAF s = FIN (MIX s)"

definition NZF :: "uint32 \<Rightarrow> uint32" where
  "NZF s = (let s1 = MIX s;
                s2 = (if s1 = 0 then s1 + 1 else s1)
            in FIN s2)"

subsection \<open>The methods\<close>

text \<open>\<^verbatim>\<open>func (d *digest) Reset() { *d = 0 }\<close>\<close>

definition Reset :: "digest \<Rightarrow> digest" where
  "Reset d = 0"

text \<open>
  \<^verbatim>\<open>func New() hash.Hash32 { d := new(digest); d.Reset(); return d }\<close>:
  \<^verbatim>\<open>new(digest)\<close> is a zeroed accumulator, which is then reset.
\<close>

definition New :: digest where
  "New = Reset 0"

definition Size :: "digest \<Rightarrow> int" where
  "Size d = 4"

definition BlockSize :: "digest \<Rightarrow> int" where
  "BlockSize d = 1"

text \<open>
  The loop of \<^verbatim>\<open>Write\<close>, \<^verbatim>\<open>for _, x := range p\<close>, with its three statements
  \<^verbatim>\<open>*d += digest(x) + 1\<close>, \<^verbatim>\<open>*d += *d << 10\<close>, \<^verbatim>\<open>*d ^= *d >> 6\<close>.
  The conversion \<^verbatim>\<open>digest(x)\<close> widens the byte to 32 bits before 1 is added.
\<close>

fun Write_loop :: "byte list \<Rightarrow> digest \<Rightarrow> digest" where
  "Write_loop [] d = d"
| "Write_loop (x # p) d =
     (let d1 = d + (ucast x + 1);
          d2 = d1 + push_bit 10 d1;
          d3 = d2 XOR drop_bit 6 d2
      in Write_loop p d3)"

text \<open>
  \<^verbatim>\<open>func (d *digest) Write(p []byte) (nn int, err error)\<close> ends with
  \<^verbatim>\<open>return len(p), nil\<close>. The result is the pair of return values and the
  accumulator after the call.
\<close>

definition Write :: "byte list \<Rightarrow> digest \<Rightarrow> (int \<times> error option) \<times> digest" where
  "Write p d = ((int (length p), None), Write_loop p d)"

text \<open>
  \<^verbatim>\<open>func (d *digest) Sum32() uint32\<close> copies the accumulator into the local
  \<^verbatim>\<open>sum\<close> and works on the copy. The result is the returned value and the
  accumulator after the call.
\<close>

definition Sum32 :: "digest \<Rightarrow> uint32 \<times> digest" where
  "Sum32 d =
     (let sum0 = (ucast d :: uint32);
          sum1 = sum0 + push_bit 10 sum0;
          sum2 = sum1 XOR drop_bit 6 sum1;
          sum3 = sum2 + push_bit 3 sum2;
          sum4 = sum3 XOR drop_bit 11 sum3;
          sum5 = sum4 + push_bit 15 sum4
      in (sum5, d))"

text \<open>
  \<^verbatim>\<open>func (d *digest) Sum(in []byte) []byte\<close> appends the four bytes of
  \<^verbatim>\<open>Sum32\<close>, most significant first.
\<close>

definition Sum :: "byte list \<Rightarrow> digest \<Rightarrow> byte list \<times> digest" where
  "Sum inp d =
     (let (s, d1) = Sum32 d
      in (inp @ [ucast (drop_bit 24 s), ucast (drop_bit 16 s), ucast (drop_bit 8 s), ucast s],
          d1))"

text \<open>
  \<^verbatim>\<open>func Checksum(data []byte) uint32 { var h hash.Hash32 = New(); h.Write(data);
  return h.Sum32() }\<close>
\<close>

definition Checksum :: "byte list \<Rightarrow> uint32" where
  "Checksum data =
     (let h = New;
          (_, h1) = Write data h;
          (r, _) = Sum32 h1
      in r)"

text \<open>The bytes of a string literal of ASCII characters, as \<^verbatim>\<open>[]byte("...")\<close> gives them.\<close>

definition bytes_of :: "string \<Rightarrow> byte list" where
  "bytes_of cs = map (\<lambda>c. word_of_nat (of_char c)) cs"

subsection \<open>The specification's wording of the per-byte update\<close>

text \<open>
  The update on natural numbers with the reduction modulo \<open>2 ^ 32\<close> written out:
  \<open>s = s + (b + 1) mod 2 ^ 32\<close>, then \<open>s = s + (s << 10) mod 2 ^ 32\<close>, then
  \<open>s = s ^ (s >> 6)\<close> with a logical right shift.
\<close>

definition update_spec :: "nat \<Rightarrow> nat \<Rightarrow> nat" where
  "update_spec s b =
     (let s1 = (s + (b + 1)) mod 2 ^ 32;
          s2 = (s1 + s1 * 2 ^ 10) mod 2 ^ 32;
          s3 = s2 XOR (s2 div 2 ^ 6)
      in s3)"

fun ingest_spec :: "nat \<Rightarrow> nat list \<Rightarrow> nat" where
  "ingest_spec s [] = s"
| "ingest_spec s (b # bs) = ingest_spec (update_spec s b) bs"

subsection \<open>The specification's wording of the finalize operation\<close>

text \<open>
  The three steps the specification gives for finalize: the extra mix step, then forcing a
  working value of 0 to 1, then the base postprocess. It is the pipeline the header
  comment calls \<^verbatim>\<open>NZF\<close>.
\<close>

definition finalize_spec :: "uint32 \<Rightarrow> uint32" where
  "finalize_spec s =
     (let w1 = s + push_bit 10 s;
          w2 = w1 XOR drop_bit 6 w1;
          w3 = (if w2 = 0 then 1 else w2);
          w4 = w3 + push_bit 3 w3;
          w5 = w4 XOR drop_bit 11 w4;
          w6 = w5 + push_bit 15 w5
      in w6)"

subsection \<open>Inverses of the mixing steps\<close>

text \<open>
  Undoing \<open>s XOR drop_bit k s\<close> on 32 bits: the shifted copies are folded back in until the
  shift reaches the word length.
\<close>

definition unxorshift6 :: "uint32 \<Rightarrow> uint32" where
  "unxorshift6 t =
     t XOR drop_bit 6 t XOR drop_bit 12 t XOR drop_bit 18 t XOR drop_bit 24 t XOR drop_bit 30 t"

definition unxorshift11 :: "uint32 \<Rightarrow> uint32" where
  "unxorshift11 t = t XOR drop_bit 11 t XOR drop_bit 22 t"

text \<open>
  \<open>s + push_bit k s\<close> is multiplication by the odd number \<open>2 ^ k + 1\<close>; the constants
  below are the inverses of 1025, 9 and 32769 modulo \<open>2 ^ 32\<close>.
\<close>

definition unMIX :: "uint32 \<Rightarrow> uint32" where
  "unMIX t = unxorshift6 t * 3222273025"

definition unFIN :: "uint32 \<Rightarrow> uint32" where
  "unFIN t = unxorshift11 (t * 1073709057) * 954437177"

section \<open>Basic facts about the model\<close>

lemma Sum32_value: "fst (Sum32 d) = NAF d"
  by (simp add: Sum32_def NAF_def FIN_def MIX_def Let_def)

lemma Sum32_state: "snd (Sum32 d) = d"
  by (simp add: Sum32_def Let_def)

lemma Write_loop_Cons: "Write_loop (x # p) d = Write_loop p (NUP d x)"
  by (simp add: NUP_def NAV_def ADD_def MIX_def Let_def)

lemma Write_loop_append: "Write_loop (p @ q) d = Write_loop q (Write_loop p d)"
  by (induction p arbitrary: d) (simp_all add: Let_def)

lemma Checksum_eq: "Checksum data = NAF (Write_loop data 0)"
  by (simp add: Checksum_def New_def Reset_def Write_def Sum32_def NAF_def FIN_def MIX_def
      Let_def)

lemma finalize_spec_NZF: "finalize_spec s = NZF s"
  by (simp add: finalize_spec_def NZF_def FIN_def MIX_def Let_def)

subsection \<open>Every mixing step can be undone\<close>

lemma add_shift10_inv: "((s::uint32) + push_bit 10 s) * 3222273025 = s"
proof -
  have e: "(1025::uint32) * 3222273025 = 1" by simp
  have "s + push_bit 10 s = s * 1025" by (simp add: push_bit_eq_mult algebra_simps)
  then have "(s + push_bit 10 s) * 3222273025 = s * (1025 * 3222273025)"
    by (simp only: mult.assoc)
  then show ?thesis by (simp only: e mult_1_right)
qed

lemma add_shift3_inv: "((s::uint32) + push_bit 3 s) * 954437177 = s"
proof -
  have e: "(9::uint32) * 954437177 = 1" by simp
  have "s + push_bit 3 s = s * 9" by (simp add: push_bit_eq_mult algebra_simps)
  then have "(s + push_bit 3 s) * 954437177 = s * (9 * 954437177)"
    by (simp only: mult.assoc)
  then show ?thesis by (simp only: e mult_1_right)
qed

lemma add_shift15_inv: "((s::uint32) + push_bit 15 s) * 1073709057 = s"
proof -
  have e: "(32769::uint32) * 1073709057 = 1" by simp
  have "s + push_bit 15 s = s * 32769" by (simp add: push_bit_eq_mult algebra_simps)
  then have "(s + push_bit 15 s) * 1073709057 = s * (32769 * 1073709057)"
    by (simp only: mult.assoc)
  then show ?thesis by (simp only: e mult_1_right)
qed

lemma xorshift6_inv: "unxorshift6 (s XOR drop_bit 6 s) = s"
  by (simp add: unxorshift6_def drop_bit_xor ac_simps)

lemma xorshift11_inv: "unxorshift11 (s XOR drop_bit 11 s) = s"
  by (simp add: unxorshift11_def drop_bit_xor ac_simps)

lemma unMIX_MIX: "unMIX (MIX s) = s"
  by (simp only: unMIX_def MIX_def Let_def xorshift6_inv add_shift10_inv)

lemma unFIN_FIN: "unFIN (FIN s) = s"
  by (simp only: unFIN_def FIN_def Let_def add_shift15_inv xorshift11_inv add_shift3_inv)

lemma bij_of_left_inverse:
  fixes f :: "uint32 \<Rightarrow> uint32"
  assumes "\<And>x. g (f x) = x"
  shows "bij f"
proof -
  have "inj f" by (rule inj_on_inverseI [where g = g]) (rule assms)
  moreover from this have "surj f" by (rule finite_UNIV_inj_surj [OF finite])
  ultimately show ?thesis by (simp add: bij_def)
qed

lemma MIX_zero: "MIX 0 = 0"
  by (simp add: MIX_def)

lemma FIN_zero: "FIN 0 = 0"
  by (simp add: FIN_def)

lemma MIX_eq_zero_iff: "MIX s = 0 \<longleftrightarrow> s = 0"
proof
  assume "MIX s = 0"
  then have "unMIX (MIX s) = unMIX (MIX 0)" by (simp add: MIX_zero)
  then show "s = 0" by (simp only: unMIX_MIX)
qed (simp add: MIX_zero)

lemma FIN_eq_zero_iff: "FIN s = 0 \<longleftrightarrow> s = 0"
proof
  assume "FIN s = 0"
  then have "unFIN (FIN s) = unFIN (FIN 0)" by (simp add: FIN_zero)
  then show "s = 0" by (simp only: unFIN_FIN)
qed (simp add: FIN_zero)

lemma NAF_eq_zero_iff: "NAF s = 0 \<longleftrightarrow> s = 0"
  by (simp add: NAF_def FIN_eq_zero_iff MIX_eq_zero_iff)

subsection \<open>Reading the accumulator as a natural number\<close>

lemma unat_byte: "unat (ucast (b::byte) :: uint32) = unat b"
  by (simp add: unsigned_ucast_eq take_bit_nat_eq_self_iff unsigned_less [THEN less_trans])

lemma unat_byte_succ: "unat (ucast (b::byte) + 1 :: uint32) = unat b + 1"
proof -
  have "unat b < 2 ^ 8" using unsigned_less [of b] by simp
  then have "unat b + 1 < 2 ^ 32" by simp
  then show ?thesis by (simp add: unat_word_ariths unat_byte)
qed

lemma byte_succ_nonzero: "(ucast (b::byte) + 1 :: uint32) \<noteq> 0"
proof
  assume "(ucast b + 1 :: uint32) = 0"
  then have "unat (ucast b + 1 :: uint32) = 0" by simp
  with unat_byte_succ [of b] show False by simp
qed

lemma unat_add_byte:
  "unat (d + (ucast (b::byte) + 1) :: uint32) = (unat d + (unat b + 1)) mod 2 ^ 32"
  by (simp only: unat_word_ariths(1) [of d] unat_byte_succ) simp

lemma unat_add_shift10:
  "unat ((s::uint32) + push_bit 10 s) = (unat s + unat s * 2 ^ 10) mod 2 ^ 32"
  by (simp add: unat_word_ariths unsigned_push_bit_eq take_bit_nat_def push_bit_nat_def
      mod_simps)

lemma unat_xorshift6:
  "unat ((s::uint32) XOR drop_bit 6 s) = unat s XOR (unat s div 2 ^ 6)"
  by (simp add: unsigned_xor_eq unat_drop_bit_eq drop_bit_nat_def)

lemma unat_NUP: "unat (NUP d b) = update_spec (unat d) (unat b)"
  unfolding NUP_def NAV_def ADD_def MIX_def update_spec_def Let_def
  by (simp only: unat_xorshift6 unat_add_shift10 unat_add_byte)

lemma unat_Write_loop: "unat (Write_loop p d) = ingest_spec (unat d) (map unat p)"
proof (induction p arbitrary: d)
  case Nil
  show ?case by simp
next
  case (Cons x p)
  have "unat (Write_loop (x # p) d) = unat (Write_loop p (NUP d x))"
    by (simp only: Write_loop_Cons)
  also have "\<dots> = ingest_spec (unat (NUP d x)) (map unat p)"
    by (rule Cons.IH)
  finally show ?case by (simp add: unat_NUP)
qed

subsection \<open>Evaluating the digest on concrete input\<close>

text \<open>
  Rewriting with these equations evaluates the accumulator byte by byte, each intermediate
  value reduced to a numeral before the next byte is read.
\<close>

lemmas eval_simps =
  Checksum_eq bytes_of_def Write_loop_Cons NUP_def NAV_def ADD_def NAF_def FIN_def MIX_def
  Let_def

lemma Checksum_a: "Checksum (bytes_of ''a'') = 0xC31517C4"
  by (simp add: eval_simps del: Write_loop.simps(2))

lemma Checksum_abc: "Checksum (bytes_of ''abc'') = 0xC3E39E2D"
  by (simp add: eval_simps del: Write_loop.simps(2))

lemma Checksum_message_digest: "Checksum (bytes_of ''message digest'') = 0x434B78B4"
  by (simp add: eval_simps del: Write_loop.simps(2))

section \<open>The claims\<close>

text \<open>
  C1 (as stated): for every nonempty byte sequence \<open>x\<close>, \<open>Checksum x\<close> is nonzero.
  The code does not have this property: \<open>Sum32\<close> has no step that forces a zero working
  value to 1, and the accumulator returns to 0 after the four bytes 26, 85, 129, 181, so
  their checksum is 0.
\<close>

theorem Checksum_nonzero_counterexample:
  "[26, 85, 129, 181] \<noteq> ([] :: byte list) \<and> Checksum [26, 85, 129, 181] = 0"
  by (simp add: eval_simps del: Write_loop.simps(2))

text \<open>
  C1 (amended): for every nonempty byte sequence \<open>x\<close>, \<open>Checksum x\<close> is 0 exactly when
  the accumulator of a fresh engine after ingesting all bytes of \<open>x\<close> but the last equals
  \<open>2 ^ 32 - 1 - b\<close>, that is \<open>- (b + 1)\<close> modulo \<open>2 ^ 32\<close>, for the last byte \<open>b\<close>; in
  every other case the checksum lies in \<open>[1, 2 ^ 32 - 1]\<close>.
\<close>

theorem Checksum_zero_iff:
  "x \<noteq> [] \<Longrightarrow>
   (Checksum x = 0) = (snd (Write (butlast x) New) = - (ucast (last x) + 1))"
proof -
  assume "x \<noteq> []"
  then have x: "x = butlast x @ [last x]" by simp
  define y where "y = butlast x"
  define b where "b = last x"
  have "Checksum x = NAF (Write_loop (y @ [b]) 0)"
    using x by (simp add: Checksum_eq y_def b_def)
  also have "\<dots> = NAF (MIX (Write_loop y 0 + (ucast b + 1)))"
    by (simp add: Write_loop_append MIX_def Let_def)
  finally have "(Checksum x = 0) = (Write_loop y 0 + (ucast b + 1) = 0)"
    by (simp add: NAF_eq_zero_iff MIX_eq_zero_iff)
  also have "\<dots> = (Write_loop y 0 = - (ucast b + 1))"
    by (rule eq_neg_iff_add_eq_0 [symmetric])
  finally show ?thesis
    by (simp add: Write_def New_def Reset_def y_def b_def)
qed

theorem Checksum_zero_iff_witness:
  "[97] \<noteq> ([] :: byte list) \<and> Checksum [97] \<noteq> 0"
  using Checksum_zero_iff [of "[97]"] by (simp add: Write_def New_def Reset_def)

text \<open>
  C2 (as stated): \<open>Sum32\<close> computes the extra mix step, then forces a working value of 0
  to 1, then applies the base postprocess. The code has no forcing step: at accumulator 0
  it returns 0, where the three steps of the claim give 294921.
\<close>

theorem Sum32_forcing_counterexample: "fst (Sum32 0) \<noteq> finalize_spec 0"
  by (simp add: Sum32_def finalize_spec_def Let_def)

text \<open>
  C2 (amended): \<open>Sum32\<close>, given accumulator value \<open>s\<close>, computes on a working copy the
  extra mix step \<open>s += s<<10; s ^= s>>6\<close> followed directly by the base postprocess
  \<open>s += s<<3; s ^= s>>11; s += s<<15\<close>, modulo \<open>2 ^ 32\<close>, with no forcing of 0 to 1
  between them; its result equals that of the three-step pipeline of the claim exactly for
  the accumulator values other than 0.
\<close>

theorem Sum32_computes:
  "fst (Sum32 s) = FIN (MIX s) \<and> (fst (Sum32 s) = finalize_spec s) = (s \<noteq> 0)"
proof
  show v: "fst (Sum32 s) = FIN (MIX s)" by (simp add: Sum32_value NAF_def)
  show "(fst (Sum32 s) = finalize_spec s) = (s \<noteq> 0)"
  proof (cases "s = 0")
    case True
    then show ?thesis by (simp add: Sum32_def finalize_spec_def Let_def)
  next
    case False
    then have "MIX s \<noteq> 0" by (simp add: MIX_eq_zero_iff)
    then have "finalize_spec s = FIN (MIX s)"
      by (simp add: finalize_spec_NZF NZF_def Let_def)
    with v False show ?thesis by simp
  qed
qed

text \<open>
  C3: \<open>Sum32\<close> on a freshly constructed engine, or on an engine right after \<open>Reset\<close>,
  returns exactly 0 (both leave the accumulator at 0), and so does the checksum of the
  empty byte sequence.
\<close>

theorem Sum32_fresh_zero:
  "New = 0 \<and> Reset d = 0 \<and> fst (Sum32 New) = 0 \<and> fst (Sum32 (Reset d)) = 0 \<and>
   Checksum [] = 0"
  by (simp add: New_def Reset_def Sum32_def Checksum_def Write_def Let_def)

text \<open>
  C4: the reference vectors: the checksum of the ASCII bytes of "a" is 0xC31517C4, of
  "abc" is 0xC3E39E2D and of "message digest" is 0x434B78B4.
\<close>

theorem reference_vectors:
  "Checksum (bytes_of ''a'') = 0xC31517C4 \<and>
   Checksum (bytes_of ''abc'') = 0xC3E39E2D \<and>
   Checksum (bytes_of ''message digest'') = 0x434B78B4"
  by (intro conjI) (rule Checksum_a Checksum_abc Checksum_message_digest)+

text \<open>
  C5: \<open>Write\<close> processes the bytes left to right, one at a time, and for each byte \<open>b\<close>
  updates the accumulator \<open>s\<close> by \<open>s = s + (b + 1) mod 2 ^ 32\<close>, then
  \<open>s = s + (s << 10) mod 2 ^ 32\<close>, then \<open>s = s ^ (s >> 6)\<close> with a logical right shift:
  read as a natural number, the accumulator after \<open>Write\<close> is the left-to-right iteration
  of that update. The accumulator is the only state there is.
\<close>

theorem Write_refines_update_spec:
  "unat (snd (Write p d)) = ingest_spec (unat d) (map unat p) \<and>
   snd (Write (b # p) d) = snd (Write p (snd (Write [b] d)))"
  by (simp add: Write_def unat_Write_loop Let_def)

text \<open>
  C6: \<open>Sum32\<close> does not change the accumulator, and two consecutive calls of \<open>Sum32\<close>
  with no ingestion between them return the same result.
\<close>

theorem Sum32_does_not_mutate:
  "snd (Sum32 d) = d \<and> fst (Sum32 (snd (Sum32 d))) = fst (Sum32 d)"
  by (simp add: Sum32_state)

text \<open>
  C7: for every byte sequence \<open>x\<close> and every engine state, \<open>Write x\<close> returns the pair
  of the length of \<open>x\<close> and a nil error, and \<open>Write\<close> of the empty sequence leaves the
  accumulator unchanged.
\<close>

theorem Write_never_fails:
  "fst (Write x d) = (int (length x), None) \<and> snd (Write [] d) = d"
  by (simp add: Write_def)

text \<open>
  C8: incremental consistency: on a fresh engine, \<open>Write x1\<close> then \<open>Write x2\<close> then
  \<open>Sum32\<close> gives the same result as one \<open>Write\<close> of \<open>x1 @ x2\<close> then \<open>Sum32\<close>.
\<close>

theorem incremental_consistency:
  "fst (Sum32 (snd (Write x2 (snd (Write x1 New))))) =
   fst (Sum32 (snd (Write (x1 @ x2) New)))"
  by (simp add: Write_def Write_loop_append)

text \<open>
  C9: the one-shot \<open>Checksum data\<close> equals the streaming pipeline: a new engine from
  \<open>New\<close>, whose accumulator is 0, then \<open>Write data\<close>, then \<open>Sum32\<close>.
\<close>

theorem Checksum_is_streaming:
  "Checksum data = fst (Sum32 (snd (Write data New))) \<and> New = 0"
  by (simp add: Checksum_def New_def Reset_def Write_def Let_def split: prod.splits)

text \<open>
  C10: \<open>Sum32\<close> is a bijection on the 32-bit values, as is each of its five steps (the
  three multiplications by an odd number \<open>s += s<<10\<close>, \<open>s += s<<3\<close>, \<open>s += s<<15\<close> and
  the two xorshifts \<open>s ^= s>>6\<close>, \<open>s ^= s>>11\<close>); and \<open>Sum32\<close> returns 0 if and only if
  the accumulator is 0.
\<close>

theorem Sum32_bijective:
  "bij (\<lambda>d. fst (Sum32 d)) \<and>
   bij (\<lambda>s::uint32. s + push_bit 10 s) \<and>
   bij (\<lambda>s::uint32. s XOR drop_bit 6 s) \<and>
   bij (\<lambda>s::uint32. s + push_bit 3 s) \<and>
   bij (\<lambda>s::uint32. s XOR drop_bit 11 s) \<and>
   bij (\<lambda>s::uint32. s + push_bit 15 s) \<and>
   (fst (Sum32 d) = 0) = (d = 0)"
proof (intro conjI)
  have "\<And>d. unMIX (unFIN (fst (Sum32 d))) = d"
    by (simp only: Sum32_value NAF_def unFIN_FIN unMIX_MIX)
  then show "bij (\<lambda>d. fst (Sum32 d))" by (rule bij_of_left_inverse)
  show "bij (\<lambda>s::uint32. s + push_bit 10 s)"
    by (rule bij_of_left_inverse [where g = "\<lambda>t. t * 3222273025"]) (rule add_shift10_inv)
  show "bij (\<lambda>s::uint32. s XOR drop_bit 6 s)"
    by (rule bij_of_left_inverse [where g = unxorshift6]) (rule xorshift6_inv)
  show "bij (\<lambda>s::uint32. s + push_bit 3 s)"
    by (rule bij_of_left_inverse [where g = "\<lambda>t. t * 954437177"]) (rule add_shift3_inv)
  show "bij (\<lambda>s::uint32. s XOR drop_bit 11 s)"
    by (rule bij_of_left_inverse [where g = unxorshift11]) (rule xorshift11_inv)
  show "bij (\<lambda>s::uint32. s + push_bit 15 s)"
    by (rule bij_of_left_inverse [where g = "\<lambda>t. t * 1073709057"]) (rule add_shift15_inv)
  show "(fst (Sum32 d) = 0) = (d = 0)"
    by (simp only: Sum32_value NAF_eq_zero_iff)
qed

end
